theory Spec2Isabelle
  imports Main "HOL-Library.Word" "HOL-Library.Multiset"
begin

section \<open>The FTDC plotting tool: \<^verbatim>\<open>ftdc/cmd/parser.go\<close>\<close>

text \<open>
  The tool decodes an FTDC file once, then runs a read-eval loop on standard input. A loop
  iteration first renders (when the flag \<^verbatim>\<open>render\<close> is set): it routes every
  reading of the decoded data into one temporary file per metric, keeping the readings whose
  timestamp lies in the current window, writes a gnuplot script that refers to those files,
  and runs gnuplot on it. Then it reads one line and executes it as a command.

  Conventions of the embedding.
  \<^item> \<^verbatim>\<open>int64\<close> is a 64-bit word, compared as a signed number, as Go does.
  \<^item> Strings are lists of bytes, and text outside ASCII is in UTF-8, as in Go.
  \<^item> A panic is the left summand of a result; \<^verbatim>\<open>continue\<close> and \<^verbatim>\<open>return\<close>
    are values of the type \<open>verdict\<close>.
  \<^item> The operating system is a record \<open>world\<close>: the files and directories created so far,
    what was printed and executed, and the outcomes of the coming system calls (each call
    takes the next one; a call fails when it is \<open>True\<close>; past the end every call succeeds).
  \<^item> A \<^verbatim>\<open>*os.File\<close> is the index of the file in the world's list of files. A file
    is open or closed; writing to a closed file fails. Temporary names, random in the
    library, are numbered.
  \<^item> \<^verbatim>\<open>float32\<close> values are never inspected by the program, only formatted: the type
    of values is a type variable, and a line \<^verbatim>\<open>"%v %.5f"\<close> of a data file is kept as
    the pair it was formatted from.
  \<^item> \<^verbatim>\<open>time.Parse\<close> with the layout \<^verbatim>\<open>2006-01-02T15:04:05\<close>, followed by
    \<^verbatim>\<open>Unix()\<close>, is a parameter \<open>parse\<close> of the command loop: it returns the
    seconds or the text of the error.
  \<^item> The order in which \<^verbatim>\<open>range\<close> visits the keys of a Go map is chosen by the
    runtime, anew at every loop over a map: it is a parameter \<open>rangeOrder\<close>, and
    \<open>rangeOrder k\<close> takes the keys in insertion order to the keys in the order visited by
    the loop over a map that the program runs after \<open>k\<close> earlier ones. The world counts
    these loops. Go allows any permutation.
\<close>

subsection \<open>Data\<close>

type_synonym int64 = "64 word"

record graphOptions =
  minTimeSeconds :: int64
  maxTimeSeconds :: int64

definition MaxInt64 :: int64 where
  "MaxInt64 = 0x7FFFFFFFFFFFFFFF"

definition defaultGraphOptions :: graphOptions where
  "defaultGraphOptions = \<lparr>minTimeSeconds = 0, maxTimeSeconds = MaxInt64\<rparr>"

datatype 'v line = Point int64 'v | Text string

record 'v osfile =
  Name :: string
  content :: "'v line list"
  closed :: bool

datatype event =
    Print string
  | Println string
  | StartError string string
  | EndError string string
  | Exec string string
  | GnuplotError

datatype panic = OsError | IndexOutOfRange

record 'v world =
  faults :: "bool list"
  dirs :: "string list"
  disk :: "'v osfile list"
  trace :: "event list"
  ranged :: nat

record gnuplotWriter =
  metricFiles :: "(string \<times> nat) list"
  tempdir :: string
  options :: graphOptions

text \<open>
  Modelled from the spec: \<^verbatim>\<open>ftdc.FlatDatum\<close> and its readings are declared in the
  package \<^verbatim>\<open>ftdc\<close>. A datum carries one timestamp, here the value of
  \<^verbatim>\<open>datum.ConvertedTime().Unix()\<close>, and a list of named readings.
\<close>

record 'v Reading =
  MetricName :: string
  Value :: 'v

record 'v FlatDatum =
  ConvertedTimeUnix :: int64
  Readings :: "'v Reading list"

subsection \<open>System calls and output\<close>

definition oscall :: "'v world \<Rightarrow> bool \<times> 'v world" where
  "oscall w = (case faults w of [] \<Rightarrow> (False, w) | b # bs \<Rightarrow> (b, w\<lparr>faults := bs\<rparr>))"

definition emit :: "event list \<Rightarrow> 'v world \<Rightarrow> 'v world" where
  "emit evs w = w\<lparr>trace := trace w @ evs\<rparr>"

definition nolintPrintln :: "string \<Rightarrow> 'v world \<Rightarrow> 'v world" where
  "nolintPrintln str w = emit [Println str] w"

fun decimal :: "nat \<Rightarrow> string" where
  "decimal n = (if n < 10 then [char_of (48 + n)] else decimal (n div 10) @ [char_of (48 + n mod 10)])"

declare decimal.simps [simp del]

text \<open>
  \<^verbatim>\<open>writeln\<close>: \<^verbatim>\<open>Fprintln\<close> on a file, panicking on an error. Writing to a file
  that is closed is an error.
\<close>

definition writeln :: "nat \<Rightarrow> 'v line \<Rightarrow> 'v world \<Rightarrow> panic + 'v world" where
  "writeln toWrite str w =
     (case oscall w of
        (True, w') \<Rightarrow> Inl OsError
      | (False, w') \<Rightarrow>
          if toWrite < length (disk w') \<and> \<not> closed (disk w' ! toWrite)
          then Inr (w'\<lparr>disk := (disk w')[toWrite :=
                  (disk w' ! toWrite)\<lparr>content := content (disk w' ! toWrite) @ [str]\<rparr>]\<rparr>)
          else Inl OsError)"

fun writelns :: "nat \<Rightarrow> 'v line list \<Rightarrow> 'v world \<Rightarrow> panic + 'v world" where
  "writelns toWrite [] w = Inr w"
| "writelns toWrite (str # strs) w =
     (case writeln toWrite str w of Inl p \<Rightarrow> Inl p | Inr w' \<Rightarrow> writelns toWrite strs w')"

text \<open>\<^verbatim>\<open>os.MkdirTemp("", pattern)\<close> and \<^verbatim>\<open>os.CreateTemp(dir, pattern)\<close>.\<close>

definition MkdirTemp :: "string \<Rightarrow> 'v world \<Rightarrow> panic + (string \<times> 'v world)" where
  "MkdirTemp pattern w =
     (case oscall w of
        (True, w') \<Rightarrow> Inl OsError
      | (False, w') \<Rightarrow>
          (let d = ''/tmp/'' @ pattern @ decimal (length (dirs w'))
           in Inr (d, w'\<lparr>dirs := dirs w' @ [d]\<rparr>)))"

definition CreateTemp :: "string \<Rightarrow> string \<Rightarrow> 'v world \<Rightarrow> panic + (nat \<times> 'v world)" where
  "CreateTemp dir pattern w =
     (case oscall w of
        (True, w') \<Rightarrow> Inl OsError
      | (False, w') \<Rightarrow>
          (let h = length (disk w');
               f = \<lparr>Name = dir @ ''/'' @ pattern @ decimal h, content = [], closed = False\<rparr>
           in Inr (h, w'\<lparr>disk := disk w' @ [f]\<rparr>)))"

text \<open>
  \<^verbatim>\<open>utils.UncheckedErrorFunc(file.Close)\<close>: the file is closed, and the error that the
  call may return is dropped.
\<close>

definition Close :: "nat \<Rightarrow> 'v world \<Rightarrow> 'v world" where
  "Close file w =
     (case oscall w of
        (failed, w') \<Rightarrow>
          if file < length (disk w')
          then w'\<lparr>disk := (disk w')[file := (disk w' ! file)\<lparr>closed := True\<rparr>]\<rparr>
          else w')"

subsection \<open>The writer\<close>

definition newGnuPlotWriter :: "graphOptions \<Rightarrow> 'v world \<Rightarrow> panic + (gnuplotWriter \<times> 'v world)" where
  "newGnuPlotWriter go w =
     (case MkdirTemp ''ftdc_parser'' w of
        Inl p \<Rightarrow> Inl p
      | Inr (d, w') \<Rightarrow> Inr (\<lparr>metricFiles = [], tempdir = d, options = go\<rparr>, w'))"

definition getDatafile ::
  "string \<Rightarrow> gnuplotWriter \<Rightarrow> 'v world \<Rightarrow> panic + (nat \<times> gnuplotWriter \<times> 'v world)" where
  "getDatafile metricName gpw w =
     (case map_of (metricFiles gpw) metricName of
        Some datafile \<Rightarrow> Inr (datafile, gpw, w)
      | None \<Rightarrow>
          (case CreateTemp (tempdir gpw) '''' w of
             Inl p \<Rightarrow> Inl p
           | Inr (datafile, w') \<Rightarrow>
               Inr (datafile, gpw\<lparr>metricFiles := metricFiles gpw @ [(metricName, datafile)]\<rparr>, w')))"

definition addPoint ::
  "int64 \<Rightarrow> string \<Rightarrow> 'v \<Rightarrow> gnuplotWriter \<Rightarrow> 'v world \<Rightarrow> panic + (gnuplotWriter \<times> 'v world)" where
  "addPoint timeSeconds metricName metricValue gpw w =
     (if timeSeconds <s minTimeSeconds (options gpw) \<or> maxTimeSeconds (options gpw) <s timeSeconds
      then Inr (gpw, w)
      else
        (case getDatafile metricName gpw w of
           Inl p \<Rightarrow> Inl p
         | Inr (datafile, gpw', w') \<Rightarrow>
             (case writeln datafile (Point timeSeconds metricValue) w' of
                Inl p \<Rightarrow> Inl p
              | Inr w'' \<Rightarrow> Inr (gpw', w''))))"

fun addReadings ::
  "int64 \<Rightarrow> 'v Reading list \<Rightarrow> gnuplotWriter \<Rightarrow> 'v world \<Rightarrow> panic + (gnuplotWriter \<times> 'v world)" where
  "addReadings t [] gpw w = Inr (gpw, w)"
| "addReadings t (reading # rest) gpw w =
     (case addPoint t (MetricName reading) (Value reading) gpw w of
        Inl p \<Rightarrow> Inl p
      | Inr (gpw', w') \<Rightarrow> addReadings t rest gpw' w')"

definition addFlatDatum ::
  "'v FlatDatum \<Rightarrow> gnuplotWriter \<Rightarrow> 'v world \<Rightarrow> panic + (gnuplotWriter \<times> 'v world)" where
  "addFlatDatum datum gpw w = addReadings (ConvertedTimeUnix datum) (Readings datum) gpw w"

text \<open>Lines 196 to 199 of \<^verbatim>\<open>main\<close>: a new writer, filled with every datum.\<close>

fun addFlatData ::
  "'v FlatDatum list \<Rightarrow> gnuplotWriter \<Rightarrow> 'v world \<Rightarrow> panic + (gnuplotWriter \<times> 'v world)" where
  "addFlatData [] gpw w = Inr (gpw, w)"
| "addFlatData (flatDatum # rest) gpw w =
     (case addFlatDatum flatDatum gpw w of
        Inl p \<Rightarrow> Inl p
      | Inr (gpw', w') \<Rightarrow> addFlatData rest gpw' w')"

definition fillWriter ::
  "graphOptions \<Rightarrow> 'v FlatDatum list \<Rightarrow> 'v world \<Rightarrow> panic + (gnuplotWriter \<times> 'v world)" where
  "fillWriter go data w =
     (case newGnuPlotWriter go w of
        Inl p \<Rightarrow> Inl p
      | Inr (gpw, w') \<Rightarrow> addFlatData data gpw w')"

subsection \<open>The script\<close>

definition sq :: "string \<Rightarrow> string" where
  "sq s = CHR 0x27 # s @ [CHR 0x27]"

text \<open>\<^verbatim>\<open>strings.ReplaceAll(metricName, "_", "\\_")\<close>.\<close>

definition escapeUnderscores :: "string \<Rightarrow> string" where
  "escapeUnderscores s = concat (map (\<lambda>c. if c = CHR ''_'' then [CHR 0x5C, CHR ''_''] else [c]) s)"

definition fileName :: "'v world \<Rightarrow> nat \<Rightarrow> string" where
  "fileName w file = (if file < length (disk w) then Name (disk w ! file) else [])"

definition plotLine :: "string \<Rightarrow> string \<Rightarrow> string" where
  "plotLine name metricName =
     ''plot '' @ sq name @ '' using 1:2 with lines linestyle 7 lw 4 title '' @ sq (escapeUnderscores metricName)"

text \<open>
  The loop of lines 158 to 161, over the keys in the order the runtime visits them (it
  visits keys of the map only; anything else in the list is passed over). Each file is
  closed once its plot directive is written.
\<close>

fun plotMetrics :: "nat \<Rightarrow> (string \<times> nat) list \<Rightarrow> string list \<Rightarrow> 'v world \<Rightarrow> panic + 'v world" where
  "plotMetrics gnuFile mf [] w = Inr w"
| "plotMetrics gnuFile mf (metricName # rest) w =
     (case map_of mf metricName of
        None \<Rightarrow> plotMetrics gnuFile mf rest w
      | Some file \<Rightarrow>
          (case writeln gnuFile (Text (plotLine (fileName w file) metricName)) w of
             Inl p \<Rightarrow> Inl p
           | Inr w' \<Rightarrow> plotMetrics gnuFile mf rest (Close file w')))"

definition header :: "string list" where
  "header =
     [''set timefmt '' @ sq ''%s'',
      ''set format x '' @ sq ''%H:%M:%S'',
      ''set xlabel '' @ sq ''Time'',
      ''set xdata time'',
      ''set yrange [0:*]'']"

text \<open>
  \<^verbatim>\<open>CompileAndClose\<close>. The deferred \<^verbatim>\<open>Close\<close> of the script runs when the function
  returns, after \<^verbatim>\<open>gnuFile.Name()\<close> is evaluated.
\<close>

definition CompileAndClose ::
  "(nat \<Rightarrow> string list \<Rightarrow> string list) \<Rightarrow> gnuplotWriter \<Rightarrow> 'v world \<Rightarrow> panic + (string \<times> 'v world)" where
  "CompileAndClose rangeOrder gpw w =
     (case CreateTemp (tempdir gpw) ''main'' w of
        Inl p \<Rightarrow> Inl p
      | Inr (gnuFile, w1) \<Rightarrow>
     (case writeln gnuFile
             (Text (''set term png size '' @ decimal 1000 @ '', '' @ decimal (200 * length (metricFiles gpw)))) w1 of
        Inl p \<Rightarrow> Inl p
      | Inr w2 \<Rightarrow>
     (case writelns gnuFile
             (map Text
               ([''set output '' @ sq ''plot.png'',
                 ''set multiplot layout '' @ decimal (length (metricFiles gpw))
                   @ '',1 margins 0.05,0.9, 0.05,0.9 spacing screen 0, char 5''] @ header))
             (nolintPrintln ''Output file: `plot.png`'' w2) of
        Inl p \<Rightarrow> Inl p
      | Inr w3 \<Rightarrow>
     (case plotMetrics gnuFile (metricFiles gpw)
             (rangeOrder (ranged w3) (map fst (metricFiles gpw)))
             (w3\<lparr>ranged := Suc (ranged w3)\<rparr>) of
        Inl p \<Rightarrow> Inl p
      | Inr w4 \<Rightarrow> Inr (fileName w4 gnuFile, Close gnuFile w4)))))"

text \<open>
  \<^verbatim>\<open>Render\<close>: the event \<open>Exec\<close> is the run of gnuplot on the script; when the run
  fails the two lines printed, whose text comes from gnuplot, are the event \<open>GnuplotError\<close>.
\<close>

definition Render ::
  "(nat \<Rightarrow> string list \<Rightarrow> string list) \<Rightarrow> gnuplotWriter \<Rightarrow> 'v world \<Rightarrow> panic + 'v world" where
  "Render rangeOrder gpw w =
     (case CompileAndClose rangeOrder gpw w of
        Inl p \<Rightarrow> Inl p
      | Inr (filename, w') \<Rightarrow>
          (case oscall w' of
             (failed, w'') \<Rightarrow>
               Inr (emit (Exec ''gnuplot'' filename # (if failed then [GnuplotError] else [])) w'')))"

text \<open>Lines 195 to 202: the body of \<^verbatim>\<open>if render\<close>.\<close>

definition renderPass ::
  "(nat \<Rightarrow> string list \<Rightarrow> string list) \<Rightarrow> graphOptions \<Rightarrow> 'v FlatDatum list \<Rightarrow> 'v world \<Rightarrow> panic + 'v world" where
  "renderPass rangeOrder go data w =
     (case fillWriter go data w of
        Inl p \<Rightarrow> Inl p
      | Inr (gpw, w') \<Rightarrow> Render rangeOrder gpw w')"

subsection \<open>Strings\<close>

definition HasPrefix :: "string \<Rightarrow> string \<Rightarrow> bool" where
  "HasPrefix s pre = (length pre \<le> length s \<and> take (length pre) s = pre)"

definition HasSuffix :: "string \<Rightarrow> string \<Rightarrow> bool" where
  "HasSuffix s suf = (length suf \<le> length s \<and> drop (length s - length suf) s = suf)"

text \<open>
  \<^verbatim>\<open>strings.TrimSpace\<close> removes the leading and the trailing white space, as
  \<^verbatim>\<open>unicode.IsSpace\<close> defines it: tab, line feed, vertical tab, form feed, carriage
  return, space, U+0085, U+00A0, U+1680, U+2000 to U+200A, U+2028, U+2029, U+202F, U+205F
  and U+3000. \<open>spaceRunes\<close> lists their UTF-8 encodings. The library decodes one rune at
  a time from the front, then from the back; a byte that starts no valid encoding is a rune
  of its own and no white space, so decoding agrees with matching these encodings.
\<close>

definition spaceRunes :: "string list" where
  "spaceRunes =
     [[CHR 0x09], [CHR 0x0A], [CHR 0x0B], [CHR 0x0C], [CHR 0x0D], [CHR 0x20],
      [CHR 0xC2, CHR 0x85], [CHR 0xC2, CHR 0xA0],
      [CHR 0xE1, CHR 0x9A, CHR 0x80],
      [CHR 0xE2, CHR 0x80, CHR 0x80], [CHR 0xE2, CHR 0x80, CHR 0x81], [CHR 0xE2, CHR 0x80, CHR 0x82],
      [CHR 0xE2, CHR 0x80, CHR 0x83], [CHR 0xE2, CHR 0x80, CHR 0x84], [CHR 0xE2, CHR 0x80, CHR 0x85],
      [CHR 0xE2, CHR 0x80, CHR 0x86], [CHR 0xE2, CHR 0x80, CHR 0x87], [CHR 0xE2, CHR 0x80, CHR 0x88],
      [CHR 0xE2, CHR 0x80, CHR 0x89], [CHR 0xE2, CHR 0x80, CHR 0x8A],
      [CHR 0xE2, CHR 0x80, CHR 0xA8], [CHR 0xE2, CHR 0x80, CHR 0xA9], [CHR 0xE2, CHR 0x80, CHR 0xAF],
      [CHR 0xE2, CHR 0x81, CHR 0x9F],
      [CHR 0xE3, CHR 0x80, CHR 0x80]]"

definition leadingSpace :: "string \<Rightarrow> nat" where
  "leadingSpace s = (case find (HasPrefix s) spaceRunes of None \<Rightarrow> 0 | Some r \<Rightarrow> length r)"

definition trailingSpace :: "string \<Rightarrow> nat" where
  "trailingSpace s = (case find (HasSuffix s) spaceRunes of None \<Rightarrow> 0 | Some r \<Rightarrow> length r)"

function TrimLeft :: "string \<Rightarrow> string" where
  "TrimLeft s = (if leadingSpace s = 0 then s else TrimLeft (drop (leadingSpace s) s))"
  by pat_completeness auto
termination
proof (relation "measure length")
  show "wf (measure length)" by simp
next
  fix s :: string
  assume "leadingSpace s \<noteq> 0"
  then obtain r where "find (HasPrefix s) spaceRunes = Some r" and "length r \<noteq> 0"
    by (auto simp: leadingSpace_def split: option.splits)
  then have "HasPrefix s r" and "r \<noteq> []"
    by (auto simp: find_Some_iff)
  then have "s \<noteq> []"
    by (auto simp: HasPrefix_def)
  with \<open>leadingSpace s \<noteq> 0\<close> show "(drop (leadingSpace s) s, s) \<in> measure length"
    by simp
qed

function TrimRight :: "string \<Rightarrow> string" where
  "TrimRight s = (if trailingSpace s = 0 then s else TrimRight (take (length s - trailingSpace s) s))"
  by pat_completeness auto
termination
proof (relation "measure length")
  show "wf (measure length)" by simp
next
  fix s :: string
  assume "trailingSpace s \<noteq> 0"
  then obtain r where "find (HasSuffix s) spaceRunes = Some r" and "length r \<noteq> 0"
    by (auto simp: trailingSpace_def split: option.splits)
  then have "HasSuffix s r" and "r \<noteq> []"
    by (auto simp: find_Some_iff)
  then have "s \<noteq> []"
    by (auto simp: HasSuffix_def)
  with \<open>trailingSpace s \<noteq> 0\<close> show "(take (length s - trailingSpace s) s, s) \<in> measure length"
    by simp
qed

declare TrimLeft.simps [simp del] TrimRight.simps [simp del]

definition TrimSpace :: "string \<Rightarrow> string" where
  "TrimSpace s = TrimRight (TrimLeft s)"

text \<open>\<^verbatim>\<open>strings.SplitN(s, sep, n)\<close> for a separator of one byte and \<open>n \<ge> 0\<close>.\<close>

fun SplitN :: "string \<Rightarrow> char \<Rightarrow> nat \<Rightarrow> string list" where
  "SplitN s sep 0 = []"
| "SplitN s sep (Suc 0) = [s]"
| "SplitN s sep (Suc (Suc n)) =
     (if sep \<in> set s
      then takeWhile (\<lambda>c. c \<noteq> sep) s # SplitN (tl (dropWhile (\<lambda>c. c \<noteq> sep) s)) sep (Suc n)
      else [s])"

subsection \<open>The command loop\<close>

datatype ioErr = EOF | ReadError

text \<open>
  What an iteration of the loop ends with: \<open>Return\<close> leaves \<^verbatim>\<open>main\<close>, \<open>Panicked\<close> is a
  panic, and \<open>Loop render go\<close> goes to the next iteration with these values of the variables
  \<^verbatim>\<open>render\<close> and \<^verbatim>\<open>graphOptions\<close>. Line 203 has set \<^verbatim>\<open>render\<close> to true before
  the command is read, so a branch that does not assign it, and a \<^verbatim>\<open>continue\<close>, end
  with \<open>Loop True\<close>.
\<close>

datatype verdict = Return | Panicked panic | Loop bool graphOptions

definition helpText :: "event list" where
  \<open>helpText =
     [Println ''range <start> <end>'',
      Println ''-  Only plot datapoints within the given range. "zoom in"'',
      Println ''-  E.g: range 2024-09-24T18:00:00 2024-09-24T18:30:00'',
      Println ''-       range start 2024-09-24T18:30:00'',
      Println ''-       range 2024-09-24T18:00:00 end'',
      Println ''-  All times in UTC'',
      Println [],
      Println ''reset range'',
      Println ''-  Unset any prior range. "zoom out to full"'',
      Println [],
      Println ''`quit` or Ctrl-d to exit'']\<close>

text \<open>
  The case \<^verbatim>\<open>strings.HasPrefix(cmd, "range ")\<close>, lines 230 to 259. The events
  \<open>StartError\<close> and \<open>EndError\<close> are the two \<^verbatim>\<open>Printf\<close> with their arguments.
\<close>

definition rangeCmd ::
  "(string \<Rightarrow> string + int64) \<Rightarrow> graphOptions \<Rightarrow> string \<Rightarrow> event list \<times> verdict" where
  "rangeCmd parse go cmd =
     (let pieces = SplitN cmd CHR '' '' 3 in
      if length pieces < 3 then ([], Panicked IndexOutOfRange)
      else
        (let start = pieces ! 1; end' = pieces ! 2 in
         case (if start = ''start'' then Inr (go\<lparr>minTimeSeconds := 0\<rparr>)
               else (case parse start of
                       Inl err \<Rightarrow> Inl (StartError start err)
                     | Inr unix \<Rightarrow> Inr (go\<lparr>minTimeSeconds := unix\<rparr>))) of
           Inl ev \<Rightarrow> ([ev], Loop True go)
         | Inr go1 \<Rightarrow>
             (if end' = ''end'' then ([], Loop True (go1\<lparr>maxTimeSeconds := MaxInt64\<rparr>))
              else (case parse end' of
                      Inl err \<Rightarrow> ([EndError end' err], Loop True go1)
                    | Inr unix \<Rightarrow> ([], Loop True (go1\<lparr>maxTimeSeconds := unix\<rparr>))))))"

text \<open>The \<^verbatim>\<open>switch\<close> of lines 210 to 268, on what \<^verbatim>\<open>ReadString\<close> returned.\<close>

definition command ::
  "(string \<Rightarrow> string + int64) \<Rightarrow> graphOptions \<Rightarrow> string \<times> ioErr option \<Rightarrow> event list \<times> verdict" where
  "command parse go rd =
     (let cmd = TrimSpace (fst rd) in
      if snd rd = Some EOF then ([Println (CHR 0x0A # ''Exiting...'')], Return)
      else if cmd = ''quit'' then ([Println ''Exiting...''], Return)
      else if cmd = ''h'' \<or> cmd = ''help'' then (helpText, Loop False go)
      else if HasPrefix cmd ''range '' then rangeCmd parse go cmd
      else if HasPrefix cmd ''reset range''
        then ([], Loop True (go\<lparr>minTimeSeconds := 0, maxTimeSeconds := MaxInt64\<rparr>))
      else if length cmd = 0 then ([], Loop False go)
      else ([Println ''Unknown command. Type `h` for help.''], Loop False go))"

text \<open>One iteration: lines 195 to 268.\<close>

definition iteration ::
  "(string \<Rightarrow> string + int64) \<Rightarrow> (nat \<Rightarrow> string list \<Rightarrow> string list) \<Rightarrow> 'v FlatDatum list \<Rightarrow>
   string \<times> ioErr option \<Rightarrow> bool \<Rightarrow> graphOptions \<Rightarrow> 'v world \<Rightarrow> panic + (verdict \<times> 'v world)" where
  "iteration parse rangeOrder data rd render go w =
     (case (if render then renderPass rangeOrder go data w else Inr w) of
        Inl p \<Rightarrow> Inl p
      | Inr w' \<Rightarrow>
          (case command parse go rd of
             (evs, v) \<Rightarrow> Inr (v, emit (Print ''$ '' # evs) w')))"

text \<open>
  The loop, on the list of the results of \<^verbatim>\<open>ReadString\<close> that standard input will
  give. Past the end of the list the read returns \<^verbatim>\<open>io.EOF\<close>.
\<close>

fun main_loop ::
  "(string \<Rightarrow> string + int64) \<Rightarrow> (nat \<Rightarrow> string list \<Rightarrow> string list) \<Rightarrow> 'v FlatDatum list \<Rightarrow>
   (string \<times> ioErr option) list \<Rightarrow> bool \<Rightarrow> graphOptions \<Rightarrow> 'v world \<Rightarrow> panic + 'v world" where
  "main_loop parse rangeOrder data [] render go w =
     (case iteration parse rangeOrder data ([], Some EOF) render go w of
        Inl p \<Rightarrow> Inl p
      | Inr (v, w') \<Rightarrow> (case v of Panicked p \<Rightarrow> Inl p | _ \<Rightarrow> Inr w'))"
| "main_loop parse rangeOrder data (rd # rds) render go w =
     (case iteration parse rangeOrder data rd render go w of
        Inl p \<Rightarrow> Inl p
      | Inr (v, w') \<Rightarrow>
          (case v of
             Panicked p \<Rightarrow> Inl p
           | Return \<Rightarrow> Inr w'
           | Loop render' go' \<Rightarrow> main_loop parse rangeOrder data rds render' go' w'))"

subsection \<open>What a render pass has produced\<close>

text \<open>
  The series of a render pass are read off the writer and the files: for every metric, in
  the order in which the metrics got their file, the lines of that file.
\<close>

definition contentAt :: "'v world \<Rightarrow> nat \<Rightarrow> 'v line list" where
  "contentAt w file = (if file < length (disk w) then content (disk w ! file) else [])"

definition sessionSeries :: "gnuplotWriter \<Rightarrow> 'v world \<Rightarrow> (string \<times> 'v line list) list" where
  "sessionSeries gpw w = map (\<lambda>(metricName, file). (metricName, contentAt w file)) (metricFiles gpw)"

definition series :: "gnuplotWriter \<Rightarrow> 'v world \<Rightarrow> string \<Rightarrow> 'v line list" where
  "series gpw w metricName =
     (case map_of (sessionSeries gpw w) metricName of None \<Rightarrow> [] | Some ls \<Rightarrow> ls)"

text \<open>The world after the lines \<open>ls\<close> have been written to the open file \<open>h\<close>.\<close>

definition written :: "nat \<Rightarrow> 'v line list \<Rightarrow> 'v world \<Rightarrow> 'v world" where
  "written h ls w = w\<lparr>disk := (disk w)[h := (disk w ! h)\<lparr>content := content (disk w ! h) @ ls\<rparr>]\<rparr>"

text \<open>The world after the file \<open>h\<close> has been closed, and a list of files after some were.\<close>

definition closedAt :: "nat \<Rightarrow> 'v world \<Rightarrow> 'v world" where
  "closedAt h w = w\<lparr>disk := (disk w)[h := (disk w ! h)\<lparr>closed := True\<rparr>]\<rparr>"

definition closeFiles :: "nat list \<Rightarrow> 'v osfile list \<Rightarrow> 'v osfile list" where
  "closeFiles hs fs = fold (\<lambda>h fs. fs[h := (fs ! h)\<lparr>closed := True\<rparr>]) hs fs"

definition closedAll :: "nat list \<Rightarrow> 'v world \<Rightarrow> 'v world" where
  "closedAll hs w = fold closedAt hs w"

text \<open>
  The files of a writer are open files of the world, each metric with a file of its own:
  what \<^verbatim>\<open>getDatafile\<close> maintains until the writer is compiled.
\<close>

definition wellFormed :: "gnuplotWriter \<Rightarrow> 'v world \<Rightarrow> bool" where
  "wellFormed gpw w =
     (distinct (map snd (metricFiles gpw)) \<and>
      (\<forall>file \<in> set (map snd (metricFiles gpw)). file < length (disk w) \<and> \<not> closed (disk w ! file)))"

definition inWindow :: "graphOptions \<Rightarrow> int64 \<Rightarrow> bool" where
  "inWindow go t = (sint (minTimeSeconds go) \<le> sint t \<and> sint t \<le> sint (maxTimeSeconds go))"

text \<open>
  The series as the specification describes them, with no files: a reading is appended to
  the sequence of its metric iff its timestamp is in the window, a metric gets its sequence
  at its first reading in the window, and the order of arrival is kept.
\<close>

fun appendSeries :: "(string \<times> 'a list) list \<Rightarrow> string \<Rightarrow> 'a \<Rightarrow> (string \<times> 'a list) list" where
  "appendSeries [] metricName x = [(metricName, [x])]"
| "appendSeries ((k, xs) # rest) metricName x =
     (if k = metricName then (k, xs @ [x]) # rest else (k, xs) # appendSeries rest metricName x)"



text \<open>The lines of the script before the plot directives, for \<open>n\<close> metrics.\<close>

definition preamble :: "nat \<Rightarrow> string list" where
  "preamble n =
     [''set term png size 1000, '' @ decimal (200 * n),
      ''set output '' @ sq ''plot.png'',
      ''set multiplot layout '' @ decimal n @ '',1 margins 0.05,0.9, 0.05,0.9 spacing screen 0, char 5'']
     @ header"

text \<open>
  A render pass up to the script: the metrics in the order they were first seen, and the
  lines of the script that \<^verbatim>\<open>CompileAndClose\<close> names.
\<close>

definition readFile :: "'v world \<Rightarrow> string \<Rightarrow> 'v line list option" where
  "readFile w name = map_option content (find (\<lambda>f. Name f = name) (disk w))"

definition compileData ::
  "(nat \<Rightarrow> string list \<Rightarrow> string list) \<Rightarrow> graphOptions \<Rightarrow> 'v FlatDatum list \<Rightarrow> 'v world \<Rightarrow>
   panic + (string list \<times> 'v line list option)" where
  "compileData rangeOrder go data w =
     (case fillWriter go data w of
        Inl p \<Rightarrow> Inl p
      | Inr (gpw, w') \<Rightarrow>
          (case CompileAndClose rangeOrder gpw w' of
             Inl p \<Rightarrow> Inl p
           | Inr (filename, w'') \<Rightarrow> Inr (map fst (metricFiles gpw), readFile w'' filename)))"

subsection \<open>The loop over a list of lines\<close>







subsection \<open>Inputs for the concrete runs\<close>

text \<open>
  The library's parser at the strings used in the runs below: three timestamps with their
  Unix seconds; any other string is taken as rejected, with the text of the error shortened.
\<close>

definition exampleParse :: "string \<Rightarrow> string + int64" where
  "exampleParse s =
     (if s = ''2024-09-24T18:00:00'' then Inr 1727200800
      else if s = ''2024-09-24T18:30:00'' then Inr 1727202600
      else if s = ''1970-01-01T00:00:00'' then Inr 0
      else Inl ''cannot parse'')"

definition emptyWorld :: "string world" where
  "emptyWorld = \<lparr>faults = [], dirs = [], disk = [], trace = [], ranged = 0\<rparr>"

text \<open>The data of the specification's scenario; the values stand as their decimal text.\<close>

definition exampleData :: "string FlatDatum list" where
  "exampleData =
     [\<lparr>ConvertedTimeUnix = 100, Readings = [\<lparr>MetricName = ''cpu'', Value = ''1.0''\<rparr>]\<rparr>,
      \<lparr>ConvertedTimeUnix = 200, Readings = [\<lparr>MetricName = ''cpu'', Value = ''2.0''\<rparr>]\<rparr>,
      \<lparr>ConvertedTimeUnix = 150, Readings = [\<lparr>MetricName = ''mem'', Value = ''5.0''\<rparr>]\<rparr>]"

definition exampleWriter :: gnuplotWriter where
  "exampleWriter =
     \<lparr>metricFiles = [], tempdir = ''/tmp/ftdc_parser0'',
      options = \<lparr>minTimeSeconds = 100, maxTimeSeconds = 150\<rparr>\<rparr>"

text \<open>A writer with two metrics, and a world that holds their files.\<close>

definition exampleSession :: gnuplotWriter where
  "exampleSession =
     \<lparr>metricFiles = [(''cpu'', 0), (''mem'', 1)], tempdir = ''/tmp/ftdc_parser0'',
      options = defaultGraphOptions\<rparr>"

definition exampleDisk :: "string world" where
  "exampleDisk =
     \<lparr>faults = [], dirs = [''/tmp/ftdc_parser0''],
      disk = [\<lparr>Name = ''/tmp/ftdc_parser0/0'', content = [Point 100 ''1.0'', Point 200 ''2.0''],
               closed = False\<rparr>,
              \<lparr>Name = ''/tmp/ftdc_parser0/1'', content = [Point 150 ''5.0''], closed = False\<rparr>],
      trace = [], ranged = 0\<rparr>"

section \<open>Commands\<close>

subsection \<open>Strings\<close>

text \<open>The lines of the concrete runs, trimmed.\<close>

lemma trimmed_lines:
  "TrimSpace ''range 2024-09-24T18:00:00 bogus\<newline>'' = ''range 2024-09-24T18:00:00 bogus''"
  "TrimSpace ''range bogus end\<newline>'' = ''range bogus end''"
  "TrimSpace ''range 100\<newline>'' = ''range 100''"
  "TrimSpace ''plot\<newline>'' = ''plot''"
  "TrimSpace ''range start 2024-09-24T18:30:00\<newline>'' = ''range start 2024-09-24T18:30:00''"
  "TrimSpace ''range 1970-01-01T00:00:00 2024-09-24T18:30:00\<newline>'' =
     ''range 1970-01-01T00:00:00 2024-09-24T18:30:00''"
  "TrimSpace ''range 2024-09-24T18:30:00 end\<newline>'' = ''range 2024-09-24T18:30:00 end''"
  "TrimSpace ''range 2024-09-24T18:00:00 2024-09-24T18:30:00\<newline>'' =
     ''range 2024-09-24T18:00:00 2024-09-24T18:30:00''"
  "TrimSpace ''reset ranges\<newline>'' = ''reset ranges''"
  "TrimSpace ''reset range\<newline>'' = ''reset range''"
  "TrimSpace [] = []"
  by code_simp+

text \<open>White space outside ASCII is trimmed too: a no-break space before \<^verbatim>\<open>quit\<close>.\<close>

lemma quit_after_no_break_space:
  "command parse go (CHR 0xC2 # CHR 0xA0 # ''quit\<newline>'', None) = ([Println ''Exiting...''], Return)"
proof -
  have "TrimSpace (CHR 0xC2 # CHR 0xA0 # ''quit\<newline>'') = ''quit''"
    by code_simp
  then show ?thesis by (simp add: command_def)
qed

lemma SplitN_token:
  assumes "\<forall>c \<in> set x. c \<noteq> sep"
  shows "SplitN (x @ sep # rest) sep (Suc (Suc n)) = x # SplitN rest sep (Suc n)"
  using assms by (simp add: takeWhile_append2 dropWhile_append2)


lemma sint_MaxInt64: "sint MaxInt64 = 2 ^ 63 - 1"
  by (simp add: MaxInt64_def)

lemma sint_le_MaxInt64: "sint (u :: int64) \<le> sint MaxInt64"
  using sint_lt [of u] by (simp add: sint_MaxInt64)

subsection \<open>The loop after a command\<close>

text \<open>
  An iteration that starts with \<^verbatim>\<open>render\<close> false prompts, reads and executes the
  command, and nothing else; the next iteration starts with the flag and the window the
  command left.
\<close>

lemma main_loop_step:
  "command parse go rd = (evs, Loop r go') \<Longrightarrow>
   main_loop parse rangeOrder data (rd # rds) False go w =
   main_loop parse rangeOrder data rds r go' (emit (Print ''$ '' # evs) w)"
  by (simp add: iteration_def)

lemma iteration_idle:
  "iteration parse rangeOrder data rd False go w =
     Inr (snd (command parse go rd), emit (Print ''$ '' # fst (command parse go rd)) w)"
  by (simp add: iteration_def split: prod.splits)


subsection \<open>A range command with a malformed bound\<close>

text \<open>
  The three ways a \<^verbatim>\<open>range\<close> line can go wrong, for any parser, window and line that
  was read without reaching the end of input. When the start bound is rejected the window
  is kept; when only the end bound is rejected the window has the new start bound; when the
  line has one bound only the program panics. In the first two the loop goes on with
  \<^verbatim>\<open>render\<close> true.
\<close>

lemma range_start_rejected:
  assumes "e \<noteq> Some EOF" and "TrimSpace l = ''range '' @ x @ '' '' @ y"
    and "CHR '' '' \<notin> set x" and "x \<noteq> ''start''" and "parse x = Inl err"
  shows "command parse go (l, e) = ([StartError x err], Loop True go)"
proof -
  have "\<forall>c \<in> set x. c \<noteq> CHR '' ''" using assms(3) by auto
  from SplitN_token [OF this, of y 0]
  have "SplitN (''range '' @ x @ '' '' @ y) CHR '' '' 3 = [''range'', x, y]"
    by (simp add: numeral_3_eq_3)
  then show ?thesis
    using assms by (simp add: command_def HasPrefix_def rangeCmd_def)
qed

lemma range_end_rejected:
  assumes "e \<noteq> Some EOF" and "TrimSpace l = ''range '' @ x @ '' '' @ y"
    and "CHR '' '' \<notin> set x" and "x \<noteq> ''start''" and "parse x = Inr t"
    and "y \<noteq> ''end''" and "parse y = Inl err"
  shows "command parse go (l, e) = ([EndError y err], Loop True (go\<lparr>minTimeSeconds := t\<rparr>))"
proof -
  have "\<forall>c \<in> set x. c \<noteq> CHR '' ''" using assms(3) by auto
  from SplitN_token [OF this, of y 0]
  have "SplitN (''range '' @ x @ '' '' @ y) CHR '' '' 3 = [''range'', x, y]"
    by (simp add: numeral_3_eq_3)
  then show ?thesis
    using assms by (simp add: command_def HasPrefix_def rangeCmd_def)
qed

lemma range_one_bound:
  assumes "e \<noteq> Some EOF" and "TrimSpace l = ''range '' @ x" and "CHR '' '' \<notin> set x"
  shows "command parse go (l, e) = ([], Panicked IndexOutOfRange)"
proof -
  have "SplitN (''range '' @ x) CHR '' '' 3 = [''range'', x]"
    using assms(3) by (simp add: numeral_3_eq_3)
  then show ?thesis
    using assms by (simp add: command_def HasPrefix_def rangeCmd_def)
qed

text \<open>
  C1. A \<^verbatim>\<open>range\<close> command one of whose bounds does not parse should leave the window
  as it was. It does not when the start bound is good and the end bound is not: line 245 has
  already stored the start bound when line 251 rejects the end bound. From the default
  window, \<^verbatim>\<open>range 2024-09-24T18:00:00 bogus\<close> reports the error and leaves the window
  starting at 1727200800.
\<close>

theorem range_end_failure_moves_window:
  "command exampleParse defaultGraphOptions (''range 2024-09-24T18:00:00 bogus\<newline>'', None) =
     ([EndError ''bogus'' ''cannot parse''],
      Loop True \<lparr>minTimeSeconds = 1727200800, maxTimeSeconds = MaxInt64\<rparr>)
   \<and> minTimeSeconds defaultGraphOptions = 0"
  by (simp add: command_def trimmed_lines HasPrefix_def rangeCmd_def numeral_3_eq_3
      exampleParse_def defaultGraphOptions_def)

text \<open>
  C2. A \<^verbatim>\<open>range\<close> command one of whose bounds does not parse should not render. It
  does: the \<^verbatim>\<open>continue\<close> of lines 243 and 256 goes to the top of the loop with
  \<^verbatim>\<open>render\<close> still true from line 203. In the run below, from the state in which
  \<^verbatim>\<open>main\<close> enters the loop and on no data, the only command is
  \<^verbatim>\<open>range bogus end\<close>; after the first render and the error message a second script is
  compiled and gnuplot runs on it, and only then comes the next prompt.
\<close>

theorem range_failure_rerenders:
  "command exampleParse go (''range bogus end\<newline>'', None) =
     ([StartError ''bogus'' ''cannot parse''], Loop True go) \<and>
   map_sum id trace
     (main_loop exampleParse (\<lambda>k. id) [] [(''range bogus end\<newline>'', None)] True defaultGraphOptions emptyWorld) =
   Inr [Println ''Output file: `plot.png`'', Exec ''gnuplot'' ''/tmp/ftdc_parser0/main0'',
        Print ''$ '', StartError ''bogus'' ''cannot parse'',
        Println ''Output file: `plot.png`'', Exec ''gnuplot'' ''/tmp/ftdc_parser1/main1'',
        Print ''$ '', Println (CHR 0x0A # ''Exiting...'')]"
proof (rule conjI)
  show "command exampleParse go (''range bogus end\<newline>'', None) =
     ([StartError ''bogus'' ''cannot parse''], Loop True go)"
    by (simp add: command_def trimmed_lines HasPrefix_def rangeCmd_def numeral_3_eq_3
        exampleParse_def)
  show "map_sum id trace
     (main_loop exampleParse (\<lambda>k. id) [] [(''range bogus end\<newline>'', None)] True defaultGraphOptions emptyWorld) =
   Inr [Println ''Output file: `plot.png`'', Exec ''gnuplot'' ''/tmp/ftdc_parser0/main0'',
        Print ''$ '', StartError ''bogus'' ''cannot parse'',
        Println ''Output file: `plot.png`'', Exec ''gnuplot'' ''/tmp/ftdc_parser1/main1'',
        Print ''$ '', Println (CHR 0x0A # ''Exiting...'')]"
    by code_simp
qed

text \<open>
  C3. A line \<^verbatim>\<open>range\<close> with malformed bounds, also one with a single bound, should be
  reported and the loop should go on. With a single bound it is not: \<^verbatim>\<open>SplitN\<close>
  returns two pieces and \<^verbatim>\<open>pieces[2]\<close> of line 233 panics, whatever the parser, the
  window and the lines that follow.
\<close>

theorem range_one_bound_panics:
  "command parse go (''range 100\<newline>'', None) = ([], Panicked IndexOutOfRange) \<and>
   main_loop parse rangeOrder data ((''range 100\<newline>'', None) # rds) False go w = Inl IndexOutOfRange"
  by (simp add: command_def trimmed_lines HasPrefix_def rangeCmd_def numeral_3_eq_3
      iteration_def)

subsection \<open>Unknown commands\<close>

text \<open>
  C6. A line that was read without reaching the end of input and that, trimmed, is not
  empty, is none of \<^verbatim>\<open>quit\<close>, \<^verbatim>\<open>h\<close>, \<^verbatim>\<open>help\<close>, and starts neither with
  \<^verbatim>\<open>range \<close> nor with \<^verbatim>\<open>reset range\<close>: the loop prints the unknown-command
  message, keeps the window, and goes to the next iteration with \<^verbatim>\<open>render\<close> false;
  such an iteration prompts and executes the next command with nothing rendered.
\<close>

theorem unknown_command:
  assumes "e \<noteq> Some EOF"
    and "TrimSpace l \<noteq> []"
    and "TrimSpace l \<noteq> ''quit''" and "TrimSpace l \<noteq> ''h''" and "TrimSpace l \<noteq> ''help''"
    and "\<not> HasPrefix (TrimSpace l) ''range ''"
    and "\<not> HasPrefix (TrimSpace l) ''reset range''"
  shows "command parse go (l, e) = ([Println ''Unknown command. Type `h` for help.''], Loop False go) \<and>
         main_loop parse rangeOrder data ((l, e) # rds) False go w =
         main_loop parse rangeOrder data rds False go
           (emit [Print ''$ '', Println ''Unknown command. Type `h` for help.''] w) \<and>
         iteration parse rangeOrder data rd False go w' =
           Inr (snd (command parse go rd), emit (Print ''$ '' # fst (command parse go rd)) w')"
proof -
  have c: "command parse go (l, e) = ([Println ''Unknown command. Type `h` for help.''], Loop False go)"
    using assms by (simp add: command_def)
  show ?thesis by (intro conjI c main_loop_step [OF c] iteration_idle)
qed

theorem unknown_command_witness:
  "command exampleParse defaultGraphOptions (''plot\<newline>'', None) =
     ([Println ''Unknown command. Type `h` for help.''], Loop False defaultGraphOptions) \<and>
   main_loop exampleParse (\<lambda>k. id) exampleData [(''plot\<newline>'', None)] False defaultGraphOptions emptyWorld =
   main_loop exampleParse (\<lambda>k. id) exampleData [] False defaultGraphOptions
     (emit [Print ''$ '', Println ''Unknown command. Type `h` for help.''] emptyWorld)"
  using unknown_command [of None "''plot\<newline>''" exampleParse defaultGraphOptions "\<lambda>k. id" exampleData "[]"
      emptyWorld]
  by (simp add: trimmed_lines HasPrefix_def)

subsection \<open>The keywords \<^verbatim>\<open>start\<close> and \<^verbatim>\<open>end\<close>\<close>

text \<open>
  C8. For a bound \<open>x\<close> that parses to the seconds \<open>t\<close>, and lines read without reaching
  the end of input: a line that is, trimmed, \<^verbatim>\<open>range start x\<close> sets the window to the
  default lower bound, which is 0, and \<open>t\<close>, exactly as does \<^verbatim>\<open>range z x\<close> for a
  timestamp \<open>z\<close> that denotes second 0; and \<^verbatim>\<open>range x end\<close> sets the window to \<open>t\<close>
  and the default upper bound, which is \<open>2\<^sup>6\<^sup>3 - 1\<close>, the largest value of an
  \<^verbatim>\<open>int64\<close>. Each of them renders.
\<close>

theorem range_keywords:
  assumes "e \<noteq> Some EOF"
    and "parse x = Inr t" and "CHR '' '' \<notin> set x" and "x \<noteq> ''start''" and "x \<noteq> ''end''"
    and "parse z = Inr 0" and "CHR '' '' \<notin> set z" and "z \<noteq> ''start''"
    and "TrimSpace l1 = ''range start '' @ x"
    and "TrimSpace l2 = ''range '' @ z @ '' '' @ x"
    and "TrimSpace l3 = ''range '' @ x @ '' end''"
  shows "command parse go (l1, e) =
           ([], Loop True \<lparr>minTimeSeconds = minTimeSeconds defaultGraphOptions, maxTimeSeconds = t\<rparr>) \<and>
         command parse go (l2, e) = command parse go (l1, e) \<and>
         command parse go (l3, e) =
           ([], Loop True \<lparr>minTimeSeconds = t, maxTimeSeconds = maxTimeSeconds defaultGraphOptions\<rparr>) \<and>
         minTimeSeconds defaultGraphOptions = 0 \<and>
         sint (maxTimeSeconds defaultGraphOptions) = 2 ^ 63 - 1 \<and>
         sint (u :: int64) \<le> sint (maxTimeSeconds defaultGraphOptions)"
proof -
  have nsx: "\<forall>c \<in> set x. c \<noteq> CHR '' ''" and nsz: "\<forall>c \<in> set z. c \<noteq> CHR '' ''"
    using assms(3,7) by auto
  have s1: "SplitN (''range start '' @ x) CHR '' '' 3 = [''range'', ''start'', x]"
    by (simp add: numeral_3_eq_3)
  have s2: "SplitN (''range '' @ z @ '' '' @ x) CHR '' '' 3 = [''range'', z, x]"
    using SplitN_token [OF nsz, of x 0] by (simp add: numeral_3_eq_3)
  have s3: "SplitN (''range '' @ x @ '' end'') CHR '' '' 3 = [''range'', x, ''end'']"
    using SplitN_token [OF nsx, of "''end''" 0] by (simp add: numeral_3_eq_3)
  have c1: "command parse go (l1, e) =
           ([], Loop True \<lparr>minTimeSeconds = minTimeSeconds defaultGraphOptions, maxTimeSeconds = t\<rparr>)"
    using assms(1,2,5,9) s1 by (simp add: command_def HasPrefix_def rangeCmd_def defaultGraphOptions_def)
  have c2: "command parse go (l2, e) =
           ([], Loop True \<lparr>minTimeSeconds = 0, maxTimeSeconds = t\<rparr>)"
    using assms(1,2,5,6,8,10) s2 by (simp add: command_def HasPrefix_def rangeCmd_def)
  have c3: "command parse go (l3, e) =
           ([], Loop True \<lparr>minTimeSeconds = t, maxTimeSeconds = maxTimeSeconds defaultGraphOptions\<rparr>)"
    using assms(1,2,4,11) s3 by (simp add: command_def HasPrefix_def rangeCmd_def defaultGraphOptions_def)
  have d: "minTimeSeconds defaultGraphOptions = 0" "maxTimeSeconds defaultGraphOptions = MaxInt64"
    by (simp_all add: defaultGraphOptions_def)
  show ?thesis
    using c1 c2 c3 d sint_MaxInt64 sint_le_MaxInt64 [of u] by simp
qed

theorem range_keywords_witness:
  "command exampleParse defaultGraphOptions (''range start 2024-09-24T18:30:00\<newline>'', None) =
      ([], Loop True \<lparr>minTimeSeconds = 0, maxTimeSeconds = 1727202600\<rparr>) \<and>
   command exampleParse defaultGraphOptions (''range 1970-01-01T00:00:00 2024-09-24T18:30:00\<newline>'', None) =
   command exampleParse defaultGraphOptions (''range start 2024-09-24T18:30:00\<newline>'', None) \<and>
   command exampleParse defaultGraphOptions (''range 2024-09-24T18:30:00 end\<newline>'', None) =
      ([], Loop True \<lparr>minTimeSeconds = 1727202600, maxTimeSeconds = MaxInt64\<rparr>)"
  using range_keywords [of None exampleParse "''2024-09-24T18:30:00''" 1727202600
      "''1970-01-01T00:00:00''" "''range start 2024-09-24T18:30:00\<newline>''"
      "''range 1970-01-01T00:00:00 2024-09-24T18:30:00\<newline>''"
      "''range 2024-09-24T18:30:00 end\<newline>''" defaultGraphOptions 0]
  by (simp add: exampleParse_def trimmed_lines defaultGraphOptions_def)

subsection \<open>Reset\<close>



section \<open>Rendering\<close>

subsection \<open>System calls\<close>

lemma writeln_Inr:
  assumes "writeln h l w = Inr w'"
  shows "h < length (disk w)"
    and "disk w' = (disk w)[h := (disk w ! h)\<lparr>content := content (disk w ! h) @ [l]\<rparr>]"
  using assms
  by (auto simp: writeln_def oscall_def split: list.splits bool.splits if_splits)

lemma writeln_ok:
  assumes "faults w = []" and "h < length (disk w)" and "\<not> closed (disk w ! h)"
  shows "writeln h l w = Inr (written h [l] w)"
  using assms by (simp add: writeln_def oscall_def written_def)

lemma Close_ok:
  assumes "faults w = []" and "h < length (disk w)"
  shows "Close h w = closedAt h w"
  using assms by (simp add: Close_def oscall_def closedAt_def)

lemma CreateTemp_Inr:
  assumes "CreateTemp d p w = Inr (h, w')"
  shows "h = length (disk w)"
    and "disk w' = disk w @
           [\<lparr>Name = d @ ''/'' @ p @ decimal (length (disk w)), content = [], closed = False\<rparr>]"
  using assms
  by (auto simp: CreateTemp_def oscall_def Let_def split: list.splits bool.splits)

lemma CreateTemp_ok:
  assumes "faults w = []"
  shows "CreateTemp d p w =
    Inr (length (disk w),
         w\<lparr>disk := disk w @
              [\<lparr>Name = d @ ''/'' @ p @ decimal (length (disk w)), content = [], closed = False\<rparr>]\<rparr>)"
  using assms by (simp add: CreateTemp_def oscall_def Let_def)

lemma contentAt_update:
  assumes "h < length (disk w)"
    and "disk w' = (disk w)[h := (disk w ! h)\<lparr>content := content (disk w ! h) @ ls\<rparr>]"
  shows "contentAt w' h' = (if h' = h then contentAt w h @ ls else contentAt w h')"
  using assms by (simp add: contentAt_def)

lemma contentAt_append:
  assumes "disk w' = disk w @ [f]"
  shows "contentAt w' h' = (if h' < length (disk w) then contentAt w h' else if h' = length (disk w) then content f else [])"
  using assms by (auto simp: contentAt_def nth_append)

subsection \<open>Series\<close>

lemma appendSeries_absent:
  "map_of s m = None \<Longrightarrow> appendSeries s m x = s @ [(m, [x])]"
  by (induction s m x rule: appendSeries.induct) (auto split: if_splits)

lemma map_of_appendSeries:
  "map_of (appendSeries s m x) k =
     (if k = m then Some ((case map_of s m of None \<Rightarrow> [] | Some xs \<Rightarrow> xs) @ [x]) else map_of s k)"
  by (induction s m x rule: appendSeries.induct) auto

lemma series_written:
  assumes "map_of mf m = Some h" and "distinct (map snd mf)"
    and "\<And>h'. c' h' = (if h' = h then c h @ [x] else c h')"
  shows "map (\<lambda>(k, f). (k, c' f)) mf = appendSeries (map (\<lambda>(k, f). (k, c f)) mf) m x"
  using assms(1,2)
proof (induction mf)
  case Nil
  then show ?case by simp
next
  case (Cons a mf)
  obtain k f where a: "a = (k, f)" by (cases a)
  show ?case
  proof (cases "k = m")
    case True
    with Cons.prems a have f: "f = h" and "h \<notin> snd ` set mf" by auto
    then have "\<forall>p \<in> set mf. c' (snd p) = c (snd p)"
      using assms(3) by force
    then have "map (\<lambda>(k, f). (k, c' f)) mf = map (\<lambda>(k, f). (k, c f)) mf"
      by (auto simp: case_prod_beta)
    then show ?thesis using True a f assms(3) by simp
  next
    case False
    with Cons.prems a have m: "map_of mf m = Some h" and d: "distinct (map snd mf)"
      and "f \<notin> snd ` set mf" by auto
    moreover from m have "h \<in> snd ` set mf" by (metis map_of_SomeD snd_conv image_eqI)
    ultimately have "f \<noteq> h" by auto
    then show ?thesis using False a assms(3) Cons.IH [OF m d] by simp
  qed
qed

lemma series_same:
  assumes "\<forall>f \<in> set (map snd mf). c' f = c f"
  shows "map (\<lambda>(k, f). (k, c' f)) mf = map (\<lambda>(k, f). (k, c f)) mf"
  using assms by (auto simp: case_prod_beta)

lemma map_of_series_None:
  "map_of (map (\<lambda>(k, f). (k, c f)) mf) m = None \<longleftrightarrow> map_of mf m = None"
  by (induction mf) auto

subsection \<open>addPoint\<close>

lemma window_test:
  "(t <s minTimeSeconds go \<or> maxTimeSeconds go <s t) = (\<not> inWindow go t)"
  by (auto simp: inWindow_def word_sless_alt)

lemma addPoint_outside:
  "\<not> inWindow (options gpw) t \<Longrightarrow> addPoint t m v gpw w = Inr (gpw, w)"
  by (simp add: addPoint_def window_test)

lemma addPoint_inside:
  assumes wf: "wellFormed gpw w" and win: "inWindow (options gpw) t"
    and res: "addPoint t m v gpw w = Inr (gpw', w')"
  shows "wellFormed gpw' w' \<and> options gpw' = options gpw \<and> tempdir gpw' = tempdir gpw \<and>
    sessionSeries gpw' w' = appendSeries (sessionSeries gpw w) m (Point t v)"
proof -
  from win have nw: "\<not> (t <s minTimeSeconds (options gpw) \<or> maxTimeSeconds (options gpw) <s t)"
    by (simp add: window_test)
  from wf have dist: "distinct (map snd (metricFiles gpw))"
    and bound: "\<forall>f \<in> set (map snd (metricFiles gpw)). f < length (disk w)"
    and opened: "\<forall>f \<in> set (map snd (metricFiles gpw)). \<not> closed (disk w ! f)"
    by (auto simp: wellFormed_def)
  show ?thesis
  proof (cases "map_of (metricFiles gpw) m")
    case (Some h)
    with res nw have g: "gpw' = gpw" and wr: "writeln h (Point t v) w = Inr w'"
      by (auto simp: addPoint_def getDatafile_def split: sum.splits)
    note W = writeln_Inr [OF wr]
    have c: "\<And>h'. contentAt w' h' = (if h' = h then contentAt w h @ [Point t v] else contentAt w h')"
      using contentAt_update [OF W] by simp
    have "sessionSeries gpw' w' = appendSeries (sessionSeries gpw w) m (Point t v)"
      unfolding sessionSeries_def g by (rule series_written [OF Some dist c])
    moreover have "wellFormed gpw' w'"
      using dist bound opened W by (auto simp: wellFormed_def g nth_list_update)
    ultimately show ?thesis
      by (simp add: g)
  next
    case None
    with res nw obtain h w1 where ct: "CreateTemp (tempdir gpw) [] w = Inr (h, w1)"
      and g: "gpw' = gpw\<lparr>metricFiles := metricFiles gpw @ [(m, h)]\<rparr>"
      and wr: "writeln h (Point t v) w1 = Inr w'"
      by (auto simp: addPoint_def getDatafile_def split: sum.splits)
    note C = CreateTemp_Inr [OF ct]
    note W = writeln_Inr [OF wr]
    have len: "length (disk w') = Suc (length (disk w))" using C W by simp
    have c1: "\<And>h'. contentAt w1 h' = (if h' < h then contentAt w h' else [])"
      using contentAt_append [OF C(2)] C(1) by auto
    have c: "\<And>h'. contentAt w' h' = (if h' = h then [Point t v] else if h' < h then contentAt w h' else [])"
      using contentAt_update [OF W] c1 by simp
    have old: "\<forall>f \<in> set (map snd (metricFiles gpw)). contentAt w' f = contentAt w f"
      using bound c C(1) by auto
    have "sessionSeries gpw' w' = sessionSeries gpw w @ [(m, [Point t v])]"
      unfolding sessionSeries_def g using series_same [OF old] c by simp
    moreover have "map_of (sessionSeries gpw w) m = None"
      unfolding sessionSeries_def using None by (simp add: map_of_series_None)
    ultimately have "sessionSeries gpw' w' = appendSeries (sessionSeries gpw w) m (Point t v)"
      by (simp add: appendSeries_absent)
    moreover have "wellFormed gpw' w'"
      using dist bound opened C W len by (auto simp: wellFormed_def g nth_list_update nth_append)
    ultimately show ?thesis
      by (simp add: g)
  qed
qed

lemma addPoint_returns:
  assumes wf: "wellFormed gpw w" and nf: "faults w = []"
  shows "\<exists>gpw' w'. addPoint t m v gpw w = Inr (gpw', w') \<and> faults w' = []"
proof (cases "map_of (metricFiles gpw) m")
  case (Some h)
  then have "h \<in> set (map snd (metricFiles gpw))"
    by (metis map_of_SomeD snd_conv image_eqI set_map)
  with wf have "h < length (disk w)" and "\<not> closed (disk w ! h)"
    unfolding wellFormed_def by blast+
  then show ?thesis using Some nf
    by (simp add: addPoint_def getDatafile_def writeln_ok written_def)
next
  case None
  then show ?thesis using nf
    by (simp add: addPoint_def getDatafile_def CreateTemp_ok writeln_ok written_def)
qed

lemma series_appendSeries:
  assumes "sessionSeries gpw' w' = appendSeries (sessionSeries gpw w) m x"
  shows "series gpw' w' k = (if k = m then series gpw w m @ [x] else series gpw w k)"
  by (simp add: series_def assms map_of_appendSeries)

subsection \<open>Writing and closing\<close>

lemma written_simps:
  "faults (written h ls w) = faults w"
  "dirs (written h ls w) = dirs w"
  "trace (written h ls w) = trace w"
  "ranged (written h ls w) = ranged w"
  "length (disk (written h ls w)) = length (disk w)"
  by (simp_all add: written_def)

lemma closedAt_simps:
  "faults (closedAt h w) = faults w"
  "dirs (closedAt h w) = dirs w"
  "trace (closedAt h w) = trace w"
  "ranged (closedAt h w) = ranged w"
  "length (disk (closedAt h w)) = length (disk w)"
  by (simp_all add: closedAt_def)

lemma closedAll_Nil: "closedAll [] w = w"
  by (simp add: closedAll_def)

lemma closedAll_Cons: "closedAll (h # hs) w = closedAll hs (closedAt h w)"
  by (simp add: closedAll_def)

lemma closedAll_simps:
  "faults (closedAll hs w) = faults w"
  "dirs (closedAll hs w) = dirs w"
  "trace (closedAll hs w) = trace w"
  "ranged (closedAll hs w) = ranged w"
  "length (disk (closedAll hs w)) = length (disk w)"
  by (induction hs arbitrary: w; simp add: closedAll_Nil closedAll_Cons closedAt_simps)+

lemma closeFiles_Nil: "closeFiles [] fs = fs"
  by (simp add: closeFiles_def)

lemma closeFiles_Cons: "closeFiles (h # hs) fs = closeFiles hs (fs[h := (fs ! h)\<lparr>closed := True\<rparr>])"
  by (simp add: closeFiles_def)

lemma length_closeFiles: "length (closeFiles hs fs) = length fs"
  by (induction hs arbitrary: fs) (simp_all add: closeFiles_Nil closeFiles_Cons)

lemma disk_closedAll: "disk (closedAll hs w) = closeFiles hs (disk w)"
  by (induction hs arbitrary: w)
    (simp_all add: closedAll_Nil closedAll_Cons closeFiles_Nil closeFiles_Cons closedAt_def)

lemma closeFiles_append:
  assumes "\<forall>h \<in> set hs. h < length fs"
  shows "closeFiles hs (fs @ gs) = closeFiles hs fs @ gs"
  using assms
proof (induction hs arbitrary: fs)
  case Nil
  then show ?case by (simp add: closeFiles_Nil)
next
  case (Cons h hs)
  then have h: "h < length fs" and hs: "\<forall>k \<in> set hs. k < length (fs[h := (fs ! h)\<lparr>closed := True\<rparr>])"
    by simp_all
  show ?case
    using h Cons.IH [OF hs] by (simp add: closeFiles_Cons list_update_append nth_append)
qed

lemma closeFiles_names:
  "map (\<lambda>f. (Name f, content f)) (closeFiles hs fs) = map (\<lambda>f. (Name f, content f)) fs"
proof (induction hs arbitrary: fs)
  case Nil
  then show ?case by (simp add: closeFiles_Nil)
next
  case (Cons h hs)
  have "map (\<lambda>f. (Name f, content f)) (fs[h := (fs ! h)\<lparr>closed := True\<rparr>]) =
        map (\<lambda>f. (Name f, content f)) fs"
    by (cases "h < length fs") (simp_all add: map_update list_update_same_conv not_less list_update_beyond)
  then show ?case by (simp add: closeFiles_Cons Cons.IH)
qed

lemma written_written:
  "h < length (disk w) \<Longrightarrow> written h ls (written h ks w) = written h (ks @ ls) w"
  by (simp add: written_def)

lemma written_Nil: "written h [] w = w"
  by (simp add: written_def)

lemma written_emit: "written h ls (emit evs w) = emit evs (written h ls w)"
  by (simp add: written_def emit_def)

lemma written_ranged: "written h ls (w\<lparr>ranged := k\<rparr>) = (written h ls w)\<lparr>ranged := k\<rparr>"
  by (simp add: written_def)

lemma written_closedAt:
  "h \<noteq> g \<Longrightarrow> written g ls (closedAt h w) = closedAt h (written g ls w)"
  by (simp add: written_def closedAt_def list_update_swap [of h g])

lemma written_new:
  "written (length (disk w)) ls (w\<lparr>disk := disk w @ [f]\<rparr>) =
   w\<lparr>disk := disk w @ [f\<lparr>content := content f @ ls\<rparr>]\<rparr>"
  by (simp add: written_def)

lemma closed_written: "closed (disk (written g ls w) ! h) = closed (disk w ! h)"
  by (cases "g < length (disk w)") (simp_all add: written_def nth_list_update not_less list_update_beyond)

lemma closed_closedAt: "h \<noteq> g \<Longrightarrow> closed (disk (closedAt h w) ! g) = closed (disk w ! g)"
  by (simp add: closedAt_def)

lemma fileName_written: "fileName (written g ls w) h = fileName w h"
  by (cases "h = g") (simp_all add: fileName_def written_def)

lemma fileName_closedAt: "fileName (closedAt g w) h = fileName w h"
  by (cases "h = g") (simp_all add: fileName_def closedAt_def)

lemma fileName_emit: "fileName (emit evs w) h = fileName w h"
  by (simp add: fileName_def emit_def)

lemma fileName_ranged: "fileName (w\<lparr>ranged := k\<rparr>) h = fileName w h"
  by (simp add: fileName_def)

lemma fileName_old:
  assumes "h < length (disk w)"
  shows "fileName (w\<lparr>disk := disk w @ fs\<rparr>) h = fileName w h"
  using assms by (simp add: fileName_def nth_append)

lemma writelns_written:
  assumes "faults w = []" and "h < length (disk w)" and "\<not> closed (disk w ! h)"
  shows "writelns h ls w = Inr (written h ls w)"
  using assms
proof (induction ls arbitrary: w)
  case Nil
  then show ?case by (simp add: written_Nil)
next
  case (Cons l ls)
  have f1: "faults (written h [l] w) = []" and h1: "h < length (disk (written h [l] w))"
    and o1: "\<not> closed (disk (written h [l] w) ! h)"
    using Cons.prems by (simp_all add: written_simps closed_written)
  show ?case
    using Cons.prems by (simp add: writeln_ok Cons.IH [OF f1 h1 o1] written_written)
qed

subsection \<open>Compiling the script\<close>

lemma plotMetrics_written:
  assumes "faults w = []" and "g < length (disk w)" and "\<not> closed (disk w ! g)"
    and "\<forall>m h. map_of mf m = Some h \<longrightarrow> h \<noteq> g \<and> h < length (disk w)"
  shows "plotMetrics g mf ks w =
    Inr (closedAll (map (\<lambda>m. the (map_of mf m)) (filter (\<lambda>m. map_of mf m \<noteq> None) ks))
          (written g (map (\<lambda>m. Text (plotLine (fileName w (the (map_of mf m))) m))
                        (filter (\<lambda>m. map_of mf m \<noteq> None) ks)) w))"
  using assms
proof (induction ks arbitrary: w)
  case Nil
  then show ?case by (simp add: written_Nil closedAll_Nil)
next
  case (Cons k ks)
  show ?case
  proof (cases "map_of mf k")
    case None
    then show ?thesis using Cons.IH [OF Cons.prems] by simp
  next
    case (Some fl)
    with Cons.prems(4) have ne: "fl \<noteq> g" and lt: "fl < length (disk w)" by auto
    let ?w0 = "written g [Text (plotLine (fileName w fl) k)] w"
    let ?w1 = "closedAt fl ?w0"
    have f1: "faults ?w1 = []" and g1: "g < length (disk ?w1)"
      using Cons.prems by (simp_all add: written_simps closedAt_simps)
    have o1: "\<not> closed (disk ?w1 ! g)"
      using Cons.prems(3) ne by (simp add: closed_closedAt closed_written)
    have m1: "\<forall>m h. map_of mf m = Some h \<longrightarrow> h \<noteq> g \<and> h < length (disk ?w1)"
      using Cons.prems(4) by (simp add: written_simps closedAt_simps)
    have cl: "Close fl ?w0 = ?w1"
      using Cons.prems(1) lt by (intro Close_ok) (simp_all add: written_simps)
    have wr: "writeln g (Text (plotLine (fileName w fl) k)) w = Inr ?w0"
      using Cons.prems by (intro writeln_ok)
    have sw: "\<And>ls. written g ls ?w1 = closedAt fl (written g (Text (plotLine (fileName w fl) k) # ls) w)"
      using ne Cons.prems(2) by (simp add: written_closedAt written_written)
    show ?thesis
      using Some
      by (simp add: wr cl Cons.IH [OF f1 g1 o1 m1] fileName_written fileName_closedAt sw closedAll_Cons)
  qed
qed

lemma decimal_1000: "decimal 1000 = ''1000''"
  by code_simp

lemma CompileAndClose_ok:
  fixes w :: "'v world"
  assumes nf: "faults w = []" and wf: "wellFormed gpw w"
  shows "CompileAndClose rangeOrder gpw w =
    Inr (tempdir gpw @ ''/main'' @ decimal (length (disk w)),
         w\<lparr>disk :=
             closeFiles
               (map (\<lambda>m. the (map_of (metricFiles gpw) m))
                  (filter (\<lambda>m. map_of (metricFiles gpw) m \<noteq> None)
                     (rangeOrder (ranged w) (map fst (metricFiles gpw)))))
               (disk w) @
             [\<lparr>Name = tempdir gpw @ ''/main'' @ decimal (length (disk w)),
               content = map Text (preamble (length (metricFiles gpw)) @
                 map (\<lambda>m. plotLine (fileName w (the (map_of (metricFiles gpw) m))) m)
                   (filter (\<lambda>m. map_of (metricFiles gpw) m \<noteq> None)
                      (rangeOrder (ranged w) (map fst (metricFiles gpw))))),
               closed = True\<rparr>],
           trace := trace w @ [Println ''Output file: `plot.png`''],
           ranged := Suc (ranged w)\<rparr>)"
proof -
  let ?g = "length (disk w)"
  let ?nm = "tempdir gpw @ ''/main'' @ decimal ?g"
  let ?mf = "metricFiles gpw"
  define ks where "ks = filter (\<lambda>m. map_of ?mf m \<noteq> None) (rangeOrder (ranged w) (map fst ?mf))"
  define hs where "hs = map (\<lambda>m. the (map_of ?mf m)) ks"
  define ps :: "'v line list" where "ps = map (\<lambda>m. Text (plotLine (fileName w (the (map_of ?mf m))) m)) ks"
  define l1 :: "'v line" where "l1 = Text (''set term png size '' @ decimal 1000 @ '', '' @ decimal (200 * length ?mf))"
  define ls :: "'v line list" where "ls = map Text
               ([''set output '' @ sq ''plot.png'',
                 ''set multiplot layout '' @ decimal (length ?mf)
                   @ '',1 margins 0.05,0.9, 0.05,0.9 spacing screen 0, char 5''] @ header)"
  define w1 where "w1 = w\<lparr>disk := disk w @ [\<lparr>Name = ?nm, content = [], closed = False\<rparr>]\<rparr>"
  define w3 where "w3 = written ?g ls (nolintPrintln ''Output file: `plot.png`'' (written ?g [l1] w1))"
  define w3' where "w3' = w3\<lparr>ranged := Suc (ranged w)\<rparr>"
  define script where "script = \<lparr>Name = ?nm, content = l1 # ls @ ps, closed = False\<rparr>"
  have old: "\<And>m h. map_of ?mf m = Some h \<Longrightarrow> h < ?g"
  proof -
    fix m h assume "map_of ?mf m = Some h"
    then have "h \<in> set (map snd ?mf)" by (metis map_of_SomeD snd_conv image_eqI set_map)
    with wf show "h < ?g" unfolding wellFormed_def by blast
  qed
  have hs: "\<forall>h \<in> set hs. h < ?g"
    using old by (auto simp: hs_def ks_def)
  have c: "CreateTemp (tempdir gpw) ''main'' w = Inr (?g, w1)"
    using nf by (simp add: CreateTemp_ok w1_def)
  have s2: "writeln ?g l1 w1 = Inr (written ?g [l1] w1)"
    using nf by (intro writeln_ok) (simp_all add: w1_def)
  have s3: "writelns ?g ls (nolintPrintln ''Output file: `plot.png`'' (written ?g [l1] w1)) = Inr w3"
    unfolding w3_def using nf
    by (intro writelns_written) (simp_all add: nolintPrintln_def emit_def written_def w1_def)
  have e3: "w3 = w\<lparr>disk := disk w @ [\<lparr>Name = ?nm, content = l1 # ls, closed = False\<rparr>],
        trace := trace w @ [Println ''Output file: `plot.png`'']\<rparr>"
    by (simp add: w3_def w1_def nolintPrintln_def emit_def written_def)
  have r3: "ranged w3 = ranged w"
    by (simp add: e3)
  have n3: "\<And>h. h < ?g \<Longrightarrow> fileName w3' h = fileName w h"
    by (simp add: w3'_def e3 fileName_def nth_append)
  have "plotMetrics ?g ?mf (rangeOrder (ranged w) (map fst ?mf)) w3' =
      Inr (closedAll (map (\<lambda>m. the (map_of ?mf m))
                        (filter (\<lambda>m. map_of ?mf m \<noteq> None) (rangeOrder (ranged w) (map fst ?mf))))
            (written ?g (map (\<lambda>m. Text (plotLine (fileName w3' (the (map_of ?mf m))) m))
                        (filter (\<lambda>m. map_of ?mf m \<noteq> None) (rangeOrder (ranged w) (map fst ?mf)))) w3'))"
  proof (intro plotMetrics_written)
    show "faults w3' = []" using nf by (simp add: w3'_def e3)
    show "?g < length (disk w3')" by (simp add: w3'_def e3)
    show "\<not> closed (disk w3' ! ?g)" by (simp add: w3'_def e3)
    show "\<forall>m h. map_of ?mf m = Some h \<longrightarrow> h \<noteq> ?g \<and> h < length (disk w3')"
      using old by (fastforce simp: w3'_def e3)
  qed
  then have pm: "plotMetrics ?g ?mf (rangeOrder (ranged w) (map fst ?mf)) w3' =
      Inr (closedAll hs (written ?g (map (\<lambda>m. Text (plotLine (fileName w3' (the (map_of ?mf m))) m)) ks) w3'))"
    unfolding hs_def ks_def .
  have "map (\<lambda>m. Text (plotLine (fileName w3' (the (map_of ?mf m))) m)) ks = ps"
    unfolding ps_def
  proof (intro map_cong refl)
    fix m assume "m \<in> set ks"
    then obtain h where "map_of ?mf m = Some h" by (auto simp: ks_def)
    with old n3 show "Text (plotLine (fileName w3' (the (map_of ?mf m))) m) =
        Text (plotLine (fileName w (the (map_of ?mf m))) m)"
      by simp
  qed
  with pm have s4: "plotMetrics ?g ?mf (rangeOrder (ranged w) (map fst ?mf)) w3' =
      Inr (closedAll hs (written ?g ps w3'))"
    by simp
  define w4 where "w4 = closedAll hs (written ?g ps w3')"
  have d3: "written ?g ps w3' =
      w\<lparr>disk := disk w @ [script], trace := trace w @ [Println ''Output file: `plot.png`''],
        ranged := Suc (ranged w)\<rparr>"
    by (simp add: w3'_def e3 written_def script_def)
  have d4: "disk w4 = closeFiles hs (disk w) @ [script]"
    unfolding w4_def disk_closedAll d3 using closeFiles_append [OF hs] by simp
  have n4: "fileName w4 ?g = ?nm"
    using length_closeFiles [of hs "disk w"] by (simp add: fileName_def d4 nth_append script_def)
  have l4: "?g < length (disk w4)"
    by (simp add: d4 length_closeFiles)
  have f4: "faults w4 = []"
    using nf by (simp add: w4_def closedAll_simps d3)
  have "Close ?g w4 = closedAt ?g w4"
    using f4 l4 by (rule Close_ok)
  also have "\<dots> = w\<lparr>disk := closeFiles hs (disk w) @ [script\<lparr>closed := True\<rparr>],
        trace := trace w @ [Println ''Output file: `plot.png`''], ranged := Suc (ranged w)\<rparr>"
  proof (rule world.equality)
    show "disk (closedAt ?g w4) = disk (w\<lparr>disk := closeFiles hs (disk w) @ [script\<lparr>closed := True\<rparr>],
        trace := trace w @ [Println ''Output file: `plot.png`''], ranged := Suc (ranged w)\<rparr>)"
      using length_closeFiles [of hs "disk w"]
      by (simp add: closedAt_def d4 nth_append list_update_append)
  qed (simp_all add: closedAt_simps w4_def closedAll_simps d3)
  finally have cl: "Close ?g w4 = w\<lparr>disk := closeFiles hs (disk w) @ [script\<lparr>closed := True\<rparr>],
        trace := trace w @ [Println ''Output file: `plot.png`''], ranged := Suc (ranged w)\<rparr>" .
  have pre: "script\<lparr>closed := True\<rparr> =
      \<lparr>Name = ?nm,
       content = map Text (preamble (length ?mf) @
          map (\<lambda>m. plotLine (fileName w (the (map_of ?mf m))) m) ks),
       closed = True\<rparr>"
    by (simp add: script_def l1_def ls_def ps_def preamble_def decimal_1000)
  have s4': "plotMetrics ?g ?mf (rangeOrder (ranged w3) (map fst ?mf)) (w3\<lparr>ranged := Suc (ranged w3)\<rparr>) =
      Inr w4"
    unfolding r3 w4_def w3'_def using s4 [unfolded w3'_def] .
  have "CompileAndClose rangeOrder gpw w = Inr (?nm, Close ?g w4)"
    unfolding CompileAndClose_def
    by (simp only: c sum.case prod.case s2 [unfolded l1_def] s3 [unfolded l1_def ls_def] s4' n4)
  then have "CompileAndClose rangeOrder gpw w =
      Inr (?nm, w\<lparr>disk := closeFiles hs (disk w) @
              [\<lparr>Name = ?nm,
                content = map Text (preamble (length ?mf) @
                  map (\<lambda>m. plotLine (fileName w (the (map_of ?mf m))) m) ks),
                closed = True\<rparr>],
            trace := trace w @ [Println ''Output file: `plot.png`''], ranged := Suc (ranged w)\<rparr>)"
    by (simp only: cl pre)
  then show ?thesis
    unfolding hs_def ks_def .
qed

lemma preamble_0:
  "preamble 0 =
     [''set term png size 1000, 0'',
      ''set output '' @ sq ''plot.png'',
      ''set multiplot layout 0,1 margins 0.05,0.9, 0.05,0.9 spacing screen 0, char 5''] @ header"
  by code_simp

subsection \<open>Filling the writer\<close>












subsection \<open>A render pass\<close>


subsection \<open>The window filter\<close>

text \<open>
  C4. For a writer whose files are open, a reading with timestamp \<open>t\<close>, metric \<open>m\<close> and
  value \<open>v\<close>: when \<open>t\<close> is outside the window, \<^verbatim>\<open>addPoint\<close> returns with the writer
  and the world as they were; when \<open>min \<le> t \<le> max\<close> as signed numbers, it returns if no
  system call fails, and whenever it returns the series of \<open>m\<close> has gained the pair
  \<open>(t, v)\<close> at its end and every other series is as before. The value takes no part in the
  decision: it is of an arbitrary type.
\<close>

theorem addPoint_window:
  assumes "wellFormed gpw w"
  shows "(\<not> inWindow (options gpw) t \<longrightarrow> addPoint t m v gpw w = Inr (gpw, w)) \<and>
         (inWindow (options gpw) t \<longrightarrow>
            (faults w = [] \<longrightarrow> (\<exists>gpw' w'. addPoint t m v gpw w = Inr (gpw', w'))) \<and>
            (\<forall>gpw' w'. addPoint t m v gpw w = Inr (gpw', w') \<longrightarrow>
               series gpw' w' m = series gpw w m @ [Point t v] \<and>
               (\<forall>k. k \<noteq> m \<longrightarrow> series gpw' w' k = series gpw w k)))"
proof (intro conjI impI allI)
  assume "\<not> inWindow (options gpw) t"
  then show "addPoint t m v gpw w = Inr (gpw, w)" by (rule addPoint_outside)
next
  assume "faults w = []"
  with addPoint_returns [OF assms] show "\<exists>gpw' w'. addPoint t m v gpw w = Inr (gpw', w')"
    by blast
next
  fix gpw' w'
  assume "inWindow (options gpw) t" and "addPoint t m v gpw w = Inr (gpw', w')"
  from addPoint_inside [OF assms this]
  have "sessionSeries gpw' w' = appendSeries (sessionSeries gpw w) m (Point t v)" by simp
  from series_appendSeries [OF this]
  show "series gpw' w' m = series gpw w m @ [Point t v]" by simp
next
  fix gpw' w' k
  assume w: "inWindow (options gpw) t" and a: "addPoint t m v gpw w = Inr (gpw', w')" and k: "k \<noteq> m"
  from addPoint_inside [OF assms w a]
  have "sessionSeries gpw' w' = appendSeries (sessionSeries gpw w) m (Point t v)" by simp
  from series_appendSeries [OF this] k
  show "series gpw' w' k = series gpw w k" by simp
qed

theorem addPoint_window_witness:
  "wellFormed exampleWriter emptyWorld \<and>
   \<not> inWindow (options exampleWriter) 200 \<and>
   addPoint 200 ''cpu'' ''2.0'' exampleWriter emptyWorld = Inr (exampleWriter, emptyWorld) \<and>
   inWindow (options exampleWriter) 150 \<and> faults emptyWorld = [] \<and>
   (\<exists>gpw' w'. addPoint 150 ''mem'' ''5.0'' exampleWriter emptyWorld = Inr (gpw', w') \<and>
      series gpw' w' ''mem'' = series exampleWriter emptyWorld ''mem'' @ [Point 150 ''5.0''])"
proof -
  have wf: "wellFormed exampleWriter emptyWorld"
    by (simp add: wellFormed_def exampleWriter_def)
  have out: "\<not> inWindow (options exampleWriter) 200"
    by (simp add: inWindow_def exampleWriter_def)
  have inside: "inWindow (options exampleWriter) 150"
    by (simp add: inWindow_def exampleWriter_def)
  have nf: "faults emptyWorld = []"
    by (simp add: emptyWorld_def)
  from addPoint_window [OF wf, of 200 "''cpu''" "''2.0''"] out
  have a: "addPoint 200 ''cpu'' ''2.0'' exampleWriter emptyWorld = Inr (exampleWriter, emptyWorld)"
    by simp
  from addPoint_window [OF wf, of 150 "''mem''" "''5.0''"] inside nf
  have b: "\<exists>gpw' w'. addPoint 150 ''mem'' ''5.0'' exampleWriter emptyWorld = Inr (gpw', w') \<and>
      series gpw' w' ''mem'' = series exampleWriter emptyWorld ''mem'' @ [Point 150 ''5.0'']"
    by blast
  from wf out a inside nf b show ?thesis by simp
qed

subsection \<open>The script\<close>

text \<open>
  C5. The script lays the graphs out in one column with one row per metric, but the plot
  directives are not in first-seen order: they are in the order in which \<^verbatim>\<open>range\<close>
  visits the keys of the map \<^verbatim>\<open>metricFiles\<close>, which the Go runtime chooses. With the
  scenario's data \<^verbatim>\<open>cpu\<close> is seen before \<^verbatim>\<open>mem\<close>; when the runtime visits the keys
  in the reverse order the script plots \<^verbatim>\<open>mem\<close> first.
\<close>

theorem plot_order_not_first_seen:
  "compileData (\<lambda>k. rev) defaultGraphOptions exampleData emptyWorld =
     Inr ([''cpu'', ''mem''],
          Some (map Text (preamble 2 @
            [plotLine ''/tmp/ftdc_parser0/1'' ''mem'', plotLine ''/tmp/ftdc_parser0/0'' ''cpu''])))"
  by code_simp

text \<open>
  C5, as the code has it. When no system call fails and the runtime visits every key once
  (any permutation of the keys), \<^verbatim>\<open>CompileAndClose\<close> returns the name of a new file
  that holds the preamble for as many rows as there are metrics, whose third line is the
  layout of that many rows and one column, followed by one plot directive per metric, in the
  order visited. The files of the metrics keep their names and contents and are closed, and
  so is the script.
\<close>

theorem plot_order_follows_iteration:
  assumes "faults w = []" and "wellFormed gpw w"
    and "mset (rangeOrder (ranged w) (map fst (metricFiles gpw))) = mset (map fst (metricFiles gpw))"
  shows "\<exists>name w'.
           CompileAndClose rangeOrder gpw w = Inr (name, w') \<and>
           disk w' =
             closeFiles
               (map (\<lambda>m. the (map_of (metricFiles gpw) m))
                  (rangeOrder (ranged w) (map fst (metricFiles gpw))))
               (disk w) @
             [\<lparr>Name = name,
               content = map Text (preamble (length (metricFiles gpw)) @
                 map (\<lambda>m. plotLine (fileName w (the (map_of (metricFiles gpw) m))) m)
                   (rangeOrder (ranged w) (map fst (metricFiles gpw)))),
               closed = True\<rparr>] \<and>
           map (\<lambda>f. (Name f, content f)) (disk w') =
             map (\<lambda>f. (Name f, content f)) (disk w) @
             [(name,
               map Text (preamble (length (metricFiles gpw)) @
                 map (\<lambda>m. plotLine (fileName w (the (map_of (metricFiles gpw) m))) m)
                   (rangeOrder (ranged w) (map fst (metricFiles gpw)))))] \<and>
           length (rangeOrder (ranged w) (map fst (metricFiles gpw))) = length (metricFiles gpw) \<and>
           preamble (length (metricFiles gpw)) ! 2 =
             ''set multiplot layout '' @ decimal (length (metricFiles gpw))
               @ '',1 margins 0.05,0.9, 0.05,0.9 spacing screen 0, char 5''"
proof -
  let ?mf = "metricFiles gpw"
  let ?vs = "rangeOrder (ranged w) (map fst ?mf)"
  from assms(3) have "set ?vs = set (map fst ?mf)"
    by (rule mset_eq_setD)
  then have "\<forall>m \<in> set ?vs. map_of ?mf m \<noteq> None"
    by (simp add: map_of_eq_None_iff)
  then have k: "filter (\<lambda>m. map_of ?mf m \<noteq> None) ?vs = ?vs"
    by (simp add: filter_id_conv)
  from assms(3) have "length ?vs = length (map fst ?mf)"
    by (rule mset_eq_length)
  then have l: "length ?vs = length ?mf" by simp
  have p: "preamble (length ?mf) ! 2 =
             ''set multiplot layout '' @ decimal (length ?mf)
               @ '',1 margins 0.05,0.9, 0.05,0.9 spacing screen 0, char 5''"
    by (simp add: preamble_def)
  note C = CompileAndClose_ok [OF assms(1,2), of rangeOrder, unfolded k]
  show ?thesis
    by (intro exI conjI, rule C) (simp_all add: l p closeFiles_names)
qed

theorem plot_order_follows_iteration_witness:
  "faults exampleDisk = [] \<and> wellFormed exampleSession exampleDisk \<and>
   mset (rev (map fst (metricFiles exampleSession))) = mset (map fst (metricFiles exampleSession)) \<and>
   (\<exists>name w'.
      CompileAndClose (\<lambda>k. rev) exampleSession exampleDisk = Inr (name, w') \<and>
      map (\<lambda>f. (Name f, content f)) (disk w') =
        map (\<lambda>f. (Name f, content f)) (disk exampleDisk) @
        [(name, map Text (preamble 2 @
            [plotLine ''/tmp/ftdc_parser0/1'' ''mem'', plotLine ''/tmp/ftdc_parser0/0'' ''cpu'']))])"
proof -
  have nf: "faults exampleDisk = []"
    by (simp add: exampleDisk_def)
  have wf: "wellFormed exampleSession exampleDisk"
    by (simp add: wellFormed_def exampleSession_def exampleDisk_def)
  have p: "mset (rev (map fst (metricFiles exampleSession))) = mset (map fst (metricFiles exampleSession))"
    by simp
  from plot_order_follows_iteration [where rangeOrder = "\<lambda>k. rev", OF nf wf p]
  obtain name w' where c: "CompileAndClose (\<lambda>k. rev) exampleSession exampleDisk = Inr (name, w')"
    and d: "map (\<lambda>f. (Name f, content f)) (disk w') =
        map (\<lambda>f. (Name f, content f)) (disk exampleDisk) @
        [(name,
          map Text (preamble (length (metricFiles exampleSession)) @
            map (\<lambda>m. plotLine (fileName exampleDisk (the (map_of (metricFiles exampleSession) m))) m)
              (rev (map fst (metricFiles exampleSession)))))]"
    by blast
  have e: "preamble (length (metricFiles exampleSession)) @
            map (\<lambda>m. plotLine (fileName exampleDisk (the (map_of (metricFiles exampleSession) m))) m)
              (rev (map fst (metricFiles exampleSession))) =
           preamble 2 @
            [plotLine ''/tmp/ftdc_parser0/1'' ''mem'', plotLine ''/tmp/ftdc_parser0/0'' ''cpu'']"
    by (simp add: exampleSession_def exampleDisk_def fileName_def numeral_2_eq_2)
  from c d have "\<exists>name w'.
      CompileAndClose (\<lambda>k. rev) exampleSession exampleDisk = Inr (name, w') \<and>
      map (\<lambda>f. (Name f, content f)) (disk w') =
        map (\<lambda>f. (Name f, content f)) (disk exampleDisk) @
        [(name, map Text (preamble 2 @
            [plotLine ''/tmp/ftdc_parser0/1'' ''mem'', plotLine ''/tmp/ftdc_parser0/0'' ''cpu'']))]"
    unfolding e by blast
  with nf wf p show ?thesis by blast
qed

text \<open>
  C9. With no data and no failing system call, filling the writer creates no file and gives
  no metric a series, and \<^verbatim>\<open>CompileAndClose\<close> returns the name of a new file that holds
  the preamble for zero rows and no plot directive, whatever the order of iteration.
\<close>

theorem empty_data_compiles:
  assumes "faults w = []"
  shows "\<exists>gpw w1 name w2.
           fillWriter go [] w = Inr (gpw, w1) \<and> metricFiles gpw = [] \<and> disk w1 = disk w \<and>
           CompileAndClose rangeOrder gpw w1 = Inr (name, w2) \<and>
           disk w2 = disk w @ [\<lparr>Name = name, content = map Text (preamble 0), closed = True\<rparr>] \<and>
           preamble 0 =
             [''set term png size 1000, 0'',
              ''set output '' @ sq ''plot.png'',
              ''set multiplot layout 0,1 margins 0.05,0.9, 0.05,0.9 spacing screen 0, char 5''] @ header"
proof -
  let ?d = "''/tmp/ftdc_parser'' @ decimal (length (dirs w))"
  let ?g = "\<lparr>metricFiles = [], tempdir = ?d, options = go\<rparr>"
  let ?w = "w\<lparr>dirs := dirs w @ [?d]\<rparr>"
  have f: "fillWriter go [] w = Inr (?g, ?w)"
    using assms by (simp add: fillWriter_def newGnuPlotWriter_def MkdirTemp_def oscall_def Let_def)
  have nf: "faults ?w = []" using assms by simp
  have wf: "wellFormed ?g ?w" by (simp add: wellFormed_def)
  from CompileAndClose_ok [OF nf wf, of rangeOrder] f preamble_0
  show ?thesis by (simp add: closeFiles_Nil)
qed

theorem empty_data_compiles_witness:
  "faults emptyWorld = [] \<and>
   (\<exists>gpw w1 name w2.
      fillWriter defaultGraphOptions [] emptyWorld = Inr (gpw, w1) \<and> metricFiles gpw = [] \<and>
      disk w1 = disk emptyWorld \<and>
      CompileAndClose (\<lambda>k. id) gpw w1 = Inr (name, w2) \<and>
      disk w2 = disk emptyWorld @ [\<lparr>Name = name, content = map Text (preamble 0), closed = True\<rparr>])"
proof -
  have nf: "faults emptyWorld = []"
    by (simp add: emptyWorld_def)
  from empty_data_compiles [OF nf, of defaultGraphOptions "\<lambda>k. id"] nf
  show ?thesis by blast
qed

subsection \<open>The render after a list of lines\<close>












end
